theory Spec2Isabelle
  imports Main "HOL-Library.Sublist"
begin

section \<open>Constants and errors of the domain package\<close>

definition PathEmpty :: string where "PathEmpty = []"
definition PathCurrent :: string where "PathCurrent = ''.''"
definition PathRoot :: string where "PathRoot = ''/''"
definition PathTraversalPrefix :: string where "PathTraversalPrefix = ''..''"
definition HiddenFilePrefix :: string where "HiddenFilePrefix = ''.''"
definition ExtensionZip :: string where "ExtensionZip = ''.zip''"
definition MIMEOctetStream :: string where "MIMEOctetStream = ''application/octet-stream''"
definition MIMEZip :: string where "MIMEZip = ''application/zip''"

text \<open>
  The error numbers of the operating system that the code inspects
  (\<open>os.IsNotExist\<close>, \<open>os.IsPermission\<close>) or that the file-system model produces.
\<close>

datatype os_errno = ENOENT | ENOTDIR | EISDIR | EACCES | EPERM | EINVAL | EBUSY | EIO

text \<open>
  The text of each \<open>fmt.Errorf\<close> call of the use cases, with its formatted arguments;
  the wrapped error (\<open>%w\<close>) is the last argument of \<open>Wrapf\<close>.
\<close>

datatype err_context =
    AbsolutePathsNotAllowed
  | PathResolutionFailed
  | PathTraversalDetected
  | PathTooLongCtx string int int
  | BaseNameInvalid string
  | CouldNotReadDirectory string
  | FailedToListPath string
  | FailedToUpload string
  | CouldNotDelete string
  | CouldNotRename string string
  | CouldNotCreateFolder string
  | FileNotFoundAt string
  | FailedToStatFile string
  | CouldNotStatFolder string
  | FailedToCreateZip string
  | FailedRelativePath
  | FailedOpenFile
  | FailedCopy

datatype error =
    ErrPathTraversal
  | ErrPathTooLong
  | ErrInvalidName
  | ErrFileNotFound
  | ErrPermissionDenied
  | ErrUnsupportedOperation
  | OsError os_errno
  | RelError string string
  | SkipDir
  | Wrapf err_context error

text \<open>\<open>errors.Is\<close>: the target is the error itself or is reached by unwrapping.\<close>

fun errors_Is :: "error \<Rightarrow> error \<Rightarrow> bool" where
  "errors_Is (Wrapf c e) t = (Wrapf c e = t \<or> errors_Is e t)"
| "errors_Is e t = (e = t)"

text \<open>
  \<open>os.IsNotExist\<close> and \<open>os.IsPermission\<close> look at the error number of an
  operating-system error; they do not unwrap an error made by \<open>fmt.Errorf\<close>.
\<close>

fun os_IsNotExist :: "error \<Rightarrow> bool" where
  "os_IsNotExist (OsError e) = (e = ENOENT)"
| "os_IsNotExist _ = False"

fun os_IsPermission :: "error \<Rightarrow> bool" where
  "os_IsPermission (OsError e) = (e = EACCES \<or> e = EPERM)"
| "os_IsPermission _ = False"

section \<open>The path functions of the standard library (Unix)\<close>

text \<open>
  The use cases call \<open>filepath.Clean\<close>, \<open>IsAbs\<close>, \<open>Join\<close>, \<open>Rel\<close>, \<open>Base\<close> and
  \<open>strings.HasPrefix\<close>. They are modelled for a Unix system, where the only separator
  is the slash and there is no volume name. A string is a list of bytes, as in Go.
\<close>

abbreviation Separator :: char where "Separator \<equiv> CHR ''/''"

text \<open>\<open>strings.Split(s, "/")\<close>: the pieces between separators, empty pieces included.\<close>

fun split_sep :: "string \<Rightarrow> string list" where
  "split_sep [] = [[]]"
| "split_sep (c # cs) =
     (if c = Separator then [] # split_sep cs
      else (case split_sep cs of [] \<Rightarrow> [[c]] | e # es \<Rightarrow> (c # e) # es))"

text \<open>\<open>strings.Join(elems, "/")\<close>.\<close>

fun join_sep :: "string list \<Rightarrow> string" where
  "join_sep [] = []"
| "join_sep [e] = e"
| "join_sep (e # f # es) = e @ Separator # join_sep (f # es)"

definition HasPrefix :: "string \<Rightarrow> string \<Rightarrow> bool" where
  "HasPrefix s p = (take (length p) s = p)"

definition IsAbs :: "string \<Rightarrow> bool" where
  "IsAbs path = HasPrefix path ''/''"

text \<open>
  \<open>filepath.Clean\<close> reads the path element by element and writes to an output buffer.
  The state is the list of elements written so far and \<open>dotdot\<close>, the number of leading
  \<open>..\<close> elements that a later \<open>..\<close> must not remove (Go keeps the byte index where
  backtracking must stop; with the output held as a list of elements this is a count).
  An empty element and \<open>.\<close> are dropped; \<open>..\<close> removes the last element when the
  output is longer than \<open>dotdot\<close>, is appended when the path is not rooted, and is
  dropped at the root; any other element is appended.
\<close>

fun clean_elem :: "bool \<Rightarrow> string list \<times> nat \<Rightarrow> string \<Rightarrow> string list \<times> nat" where
  "clean_elem rooted (out, dotdot) e =
     (if e = [] \<or> e = ''.'' then (out, dotdot)
      else if e = ''..'' then
        (if length out > dotdot then (butlast out, dotdot)
         else if \<not> rooted then (out @ [''..''], Suc (length out))
         else (out, dotdot))
      else (out @ [e], dotdot))"

definition clean_elems :: "bool \<Rightarrow> string list \<Rightarrow> string list" where
  "clean_elems rooted es = fst (foldl (clean_elem rooted) ([], 0) es)"

text \<open>The output buffer as a string: the leading slash of a rooted path, and \<open>.\<close> for nothing.\<close>

definition render :: "bool \<Rightarrow> string list \<Rightarrow> string" where
  "render rooted out =
     (if rooted then Separator # join_sep out
      else if out = [] then ''.'' else join_sep out)"

definition Clean :: "string \<Rightarrow> string" where
  "Clean path =
     (if path = [] then ''.''
      else render (IsAbs path) (clean_elems (IsAbs path) (split_sep path)))"

text \<open>
  \<open>filepath.Join\<close>: the elements from the first non-empty one on are joined with
  separators and cleaned; with no non-empty element the result is the empty string.
\<close>

fun Join :: "string list \<Rightarrow> string" where
  "Join [] = []"
| "Join (e # es) = (if e \<noteq> [] then Clean (join_sep (e # es)) else Join es)"

text \<open>
  \<open>filepath.Base\<close>: the last element of the path, after trailing slashes are removed;
  \<open>.\<close> for the empty path and a single slash for a path of slashes only.
\<close>

fun strip_trailing_sep :: "string \<Rightarrow> string" where
  "strip_trailing_sep path =
     (if path \<noteq> [] \<and> last path = Separator then strip_trailing_sep (butlast path) else path)"

declare strip_trailing_sep.simps [simp del]

definition Base :: "string \<Rightarrow> string" where
  "Base path =
     (if path = [] then ''.''
      else let p = strip_trailing_sep path in
        if p = [] then ''/'' else last (split_sep p))"

text \<open>
  \<open>filepath.Rel\<close> works on the cleaned paths. Equal paths give \<open>.\<close>; a base of \<open>.\<close>
  counts as empty; a rooted and an unrooted path cannot be related. Otherwise the
  elements the two paths share at their start are skipped. If the base then continues
  with \<open>..\<close> where the target differs, there is no lexical answer. Each base element
  left over costs one \<open>..\<close>, followed by what is left of the target.
\<close>

definition path_elems :: "string \<Rightarrow> string list" where
  "path_elems p = filter (\<lambda>e. e \<noteq> []) (split_sep p)"

fun skip_common :: "string list \<Rightarrow> string list \<Rightarrow> string list \<times> string list" where
  "skip_common (b # bs) (t # ts) = (if b = t then skip_common bs ts else (b # bs, t # ts))"
| "skip_common bs ts = (bs, ts)"

definition Rel :: "string \<Rightarrow> string \<Rightarrow> error + string" where
  "Rel basepath targpath =
     (let base = Clean basepath; targ = Clean targpath in
      if targ = base then Inr ''.''
      else
        let base = (if base = ''.'' then [] else base) in
        if IsAbs base \<noteq> IsAbs targ then Inl (RelError targpath basepath)
        else
          (case skip_common (path_elems base) (path_elems targ) of (bs, ts) \<Rightarrow>
             if bs \<noteq> [] \<and> ts \<noteq> [] \<and> hd bs = ''..'' then Inl (RelError targpath basepath)
             else if bs \<noteq> [] then Inr (join_sep (replicate (length bs) ''..'' @ ts))
             else Inr (join_sep ts)))"

section \<open>Configuration and the storage interface\<close>

record FileConfig =
  MaxNameLength :: int
  ForbiddenExtensions :: "string list"
  ValidNameRegex :: string

record Config =
  File :: FileConfig

text \<open>\<open>os.FileInfo\<close>, as far as the code reads it, and \<open>domain.FileData\<close>.\<close>

record FileInfo =
  info_Name :: string
  info_IsDir :: bool

record FileData =
  Name :: string
  IsDir :: bool

text \<open>
  \<open>domain.FileStorage\<close>. The five operations that read or change the stored files act
  on a state \<open>'w\<close>, which they return; \<open>GetAbsolutePath\<close> has no error result and
  only resolves a path, so it is a function of the path alone. The bytes of an
  \<open>io.Reader\<close> are a string.
\<close>

record 'w FileStorage =
  ReadDirectory :: "string \<Rightarrow> 'w \<Rightarrow> (error + FileInfo list) \<times> 'w"
  WriteFile :: "string \<Rightarrow> string \<Rightarrow> 'w \<Rightarrow> error option \<times> 'w"
  Remove :: "string \<Rightarrow> 'w \<Rightarrow> error option \<times> 'w"
  Move :: "string \<Rightarrow> string \<Rightarrow> 'w \<Rightarrow> error option \<times> 'w"
  CreateDirectory :: "string \<Rightarrow> 'w \<Rightarrow> error option \<times> 'w"
  GetAbsolutePath :: "string \<Rightarrow> string"

text \<open>
  \<open>FileManagementUseCase\<close>. The field \<open>validName\<close> is the compiled regular expression:
  \<open>validName uc s\<close> is \<open>uc.validName.MatchString(s)\<close>.
\<close>

record 'w FileManagementUseCase =
  storage :: "'w FileStorage"
  cfg :: Config
  validName :: "string \<Rightarrow> bool"

section \<open>sanitizePath\<close>

definition sanitizePath :: "'w FileManagementUseCase \<Rightarrow> string \<Rightarrow> error + string" where
  "sanitizePath uc path =
     (let clean = Clean path in
      if IsAbs clean then Inl (Wrapf AbsolutePathsNotAllowed ErrPathTraversal)
      else
        let basePath = Clean (GetAbsolutePath (storage uc) PathEmpty);
            fullPath = Join [basePath, clean]
        in case Rel basePath fullPath of
             Inl err \<Rightarrow> Inl (Wrapf PathResolutionFailed ErrPathTraversal)
           | Inr rel \<Rightarrow>
               if HasPrefix rel PathTraversalPrefix
               then Inl (Wrapf PathTraversalDetected ErrPathTraversal)
               else if int (length clean) > MaxNameLength (File (cfg uc))
               then Inl (Wrapf (PathTooLongCtx path (int (length clean))
                                  (MaxNameLength (File (cfg uc)))) ErrPathTooLong)
               else
                 let base = Base clean in
                 if base \<noteq> PathCurrent \<and> base \<noteq> PathEmpty \<and> \<not> validName uc base
                 then Inl (Wrapf (BaseNameInvalid base) ErrInvalidName)
                 else Inr clean)"

text \<open>
  The name pattern of the tests, \<open>^[\w\-. ]+$\<close>: one or more bytes, each a word
  character (letter, digit, underscore), a hyphen, a dot or a space, from the start of
  the text to its end.
\<close>

definition word_char :: "char \<Rightarrow> bool" where
  "word_char c =
     (let n = (of_char c :: nat)
      in (48 \<le> n \<and> n \<le> 57) \<or> (65 \<le> n \<and> n \<le> 90) \<or> n = 95 \<or> (97 \<le> n \<and> n \<le> 122))"

definition name_char :: "char \<Rightarrow> bool" where
  "name_char c = (word_char c \<or> c = CHR ''-'' \<or> c = CHR ''.'' \<or> c = CHR '' '')"

definition default_validName :: "string \<Rightarrow> bool" where
  "default_validName s = (s \<noteq> [] \<and> list_all name_char s)"

text \<open>
  \<open>NewFileManagementUseCase\<close>; \<open>compile\<close> stands for \<open>regexp.MustCompile\<close>
  followed by \<open>MatchString\<close>.
\<close>

definition NewFileManagementUseCase ::
  "(string \<Rightarrow> string \<Rightarrow> bool) \<Rightarrow> 'w FileStorage \<Rightarrow> Config \<Rightarrow> 'w FileManagementUseCase" where
  "NewFileManagementUseCase compile st c =
     \<lparr>storage = st, cfg = c, validName = compile (ValidNameRegex (File c))\<rparr>"

text \<open>
  The checks of \<open>sanitizePath\<close> one by one, to speak about an input that passes some of
  them: the traversal check is its first three tests, the name check its last.
\<close>

definition traversal_check :: "'w FileManagementUseCase \<Rightarrow> string \<Rightarrow> bool" where
  "traversal_check uc path =
     (let clean = Clean path in
      \<not> IsAbs clean \<and>
      (let basePath = Clean (GetAbsolutePath (storage uc) PathEmpty)
       in case Rel basePath (Join [basePath, clean]) of
            Inl err \<Rightarrow> False
          | Inr rel \<Rightarrow> \<not> HasPrefix rel PathTraversalPrefix))"

definition length_check :: "'w FileManagementUseCase \<Rightarrow> string \<Rightarrow> bool" where
  "length_check uc path = (int (length (Clean path)) \<le> MaxNameLength (File (cfg uc)))"

definition name_check :: "'w FileManagementUseCase \<Rightarrow> string \<Rightarrow> bool" where
  "name_check uc path =
     (let base = Base (Clean path)
      in base = PathCurrent \<or> base = PathEmpty \<or> validName uc base)"

text \<open>
  Confinement, said without \<open>Clean\<close> or \<open>Rel\<close>: both paths are absolute, neither
  has a parent-directory element, and the elements of the base directory are the first
  elements of the path, in order.
\<close>

definition inside :: "string \<Rightarrow> string \<Rightarrow> bool" where
  "inside base p =
     (IsAbs base \<and> IsAbs p \<and> ''..'' \<notin> set (path_elems base) \<and> ''..'' \<notin> set (path_elems p)
      \<and> prefix (path_elems base) (path_elems p))"

section \<open>The use cases on the storage interface\<close>

definition List :: "'w FileManagementUseCase \<Rightarrow> string \<Rightarrow> 'w \<Rightarrow> (error + FileData list) \<times> 'w" where
  "List uc path w =
     (case sanitizePath uc path of
        Inl err \<Rightarrow> (Inl err, w)
      | Inr sanitizedPath \<Rightarrow>
          (case ReadDirectory (storage uc) sanitizedPath w of
             (Inl err, w') \<Rightarrow>
               if os_IsNotExist err
               then (Inl (Wrapf (CouldNotReadDirectory sanitizedPath) ErrFileNotFound), w')
               else if os_IsPermission err
               then (Inl (Wrapf (CouldNotReadDirectory sanitizedPath) ErrPermissionDenied), w')
               else (Inl (Wrapf (FailedToListPath sanitizedPath) err), w')
           | (Inr entries, w') \<Rightarrow>
               (Inr (map (\<lambda>fi. \<lparr>Name = info_Name fi, IsDir = info_IsDir fi\<rparr>) entries), w')))"

definition UploadFile :: "'w FileManagementUseCase \<Rightarrow> string \<Rightarrow> string \<Rightarrow> 'w \<Rightarrow> error option \<times> 'w" where
  "UploadFile uc path file w =
     (case sanitizePath uc path of
        Inl err \<Rightarrow> (Some err, w)
      | Inr sanitizedPath \<Rightarrow>
          (case WriteFile (storage uc) sanitizedPath file w of
             (Some writeErr, w') \<Rightarrow> (Some (Wrapf (FailedToUpload sanitizedPath) writeErr), w')
           | (None, w') \<Rightarrow> (None, w')))"

definition Delete :: "'w FileManagementUseCase \<Rightarrow> string \<Rightarrow> 'w \<Rightarrow> error option \<times> 'w" where
  "Delete uc path w =
     (case sanitizePath uc path of
        Inl err \<Rightarrow> (Some err, w)
      | Inr sanitizedPath \<Rightarrow>
          (case Remove (storage uc) sanitizedPath w of
             (Some removeErr, w') \<Rightarrow> (Some (Wrapf (CouldNotDelete sanitizedPath) removeErr), w')
           | (None, w') \<Rightarrow> (None, w')))"

definition Rename :: "'w FileManagementUseCase \<Rightarrow> string \<Rightarrow> string \<Rightarrow> 'w \<Rightarrow> error option \<times> 'w" where
  "Rename uc oldPath newPath w =
     (case sanitizePath uc oldPath of
        Inl err \<Rightarrow> (Some err, w)
      | Inr sanitizedOldPath \<Rightarrow>
          (case sanitizePath uc newPath of
             Inl err \<Rightarrow> (Some err, w)
           | Inr sanitizedNewPath \<Rightarrow>
               (case Move (storage uc) sanitizedOldPath sanitizedNewPath w of
                  (Some moveErr, w') \<Rightarrow>
                    (Some (Wrapf (CouldNotRename sanitizedOldPath sanitizedNewPath) moveErr), w')
                | (None, w') \<Rightarrow> (None, w'))))"

definition CreateFolder :: "'w FileManagementUseCase \<Rightarrow> string \<Rightarrow> 'w \<Rightarrow> error option \<times> 'w" where
  "CreateFolder uc path w =
     (case sanitizePath uc path of
        Inl err \<Rightarrow> (Some err, w)
      | Inr sanitizedPath \<Rightarrow>
          (case CreateDirectory (storage uc) sanitizedPath w of
             (Some createErr, w') \<Rightarrow> (Some (Wrapf (CouldNotCreateFolder sanitizedPath) createErr), w')
           | (None, w') \<Rightarrow> (None, w')))"

text \<open>
  A storage that records every call of its five operations in a log beside the state,
  to say that no call was made.
\<close>

datatype storage_call =
    CallReadDirectory string
  | CallWriteFile string
  | CallRemove string
  | CallMove string string
  | CallCreateDirectory string

definition logged :: "'w FileStorage \<Rightarrow> ('w \<times> storage_call list) FileStorage" where
  "logged st =
     \<lparr>ReadDirectory = (\<lambda>p (w, l). case ReadDirectory st p w of (r, w') \<Rightarrow> (r, (w', l @ [CallReadDirectory p]))),
      WriteFile = (\<lambda>p b (w, l). case WriteFile st p b w of (r, w') \<Rightarrow> (r, (w', l @ [CallWriteFile p]))),
      Remove = (\<lambda>p (w, l). case Remove st p w of (r, w') \<Rightarrow> (r, (w', l @ [CallRemove p]))),
      Move = (\<lambda>p q (w, l). case Move st p q w of (r, w') \<Rightarrow> (r, (w', l @ [CallMove p q]))),
      CreateDirectory = (\<lambda>p (w, l). case CreateDirectory st p w of (r, w') \<Rightarrow> (r, (w', l @ [CallCreateDirectory p]))),
      GetAbsolutePath = GetAbsolutePath st\<rparr>"

definition with_log :: "'w FileManagementUseCase \<Rightarrow> ('w \<times> storage_call list) FileManagementUseCase" where
  "with_log uc = \<lparr>storage = logged (storage uc), cfg = cfg uc, validName = validName uc\<rparr>"

section \<open>The file system\<close>

text \<open>
  The files below the root directory, as far as the code can observe them: a file with
  its bytes, a directory with its entries in the order in which the directory is read
  (\<open>os.ReadDir\<close> and \<open>filepath.Walk\<close> read it by name), and an entry that the
  directory lists but whose metadata lookup fails with the given error number (the
  source's comment names broken links). There are no symbolic links, so \<open>os.Stat\<close> and
  \<open>os.Lstat\<close> agree. A path is looked up from the root by its non-empty elements;
  the paths that reach the file system come from \<open>GetAbsolutePath\<close>, which cleans them,
  so with an absolute base path they have no \<open>.\<close> or \<open>..\<close> element.
\<close>

datatype node =
    FileNode string
  | DirNode "(string \<times> node) list"
  | Unstatable os_errno

fun lookup :: "node \<Rightarrow> string list \<Rightarrow> os_errno + node" where
  "lookup n [] = Inr n"
| "lookup (DirNode es) (x # xs) =
     (case map_of es x of None \<Rightarrow> Inl ENOENT | Some c \<Rightarrow> lookup c xs)"
| "lookup (FileNode b) (x # xs) = Inl ENOTDIR"
| "lookup (Unstatable e) (x # xs) = Inl e"

fun node_info :: "string \<Rightarrow> node \<Rightarrow> error + FileInfo" where
  "node_info name (FileNode b) = Inr \<lparr>info_Name = name, info_IsDir = False\<rparr>"
| "node_info name (DirNode es) = Inr \<lparr>info_Name = name, info_IsDir = True\<rparr>"
| "node_info name (Unstatable e) = Inl (OsError e)"

text \<open>\<open>os.Stat\<close>: the name of the result is the last element of the path.\<close>

definition os_Stat :: "node \<Rightarrow> string \<Rightarrow> error + FileInfo" where
  "os_Stat fs path =
     (case lookup fs (path_elems path) of
        Inl e \<Rightarrow> Inl (OsError e)
      | Inr n \<Rightarrow> node_info (Base path) n)"

record DirEntry =
  entry_Name :: string
  entry_Info :: "error + FileInfo"

definition os_ReadDir :: "node \<Rightarrow> string \<Rightarrow> error + DirEntry list" where
  "os_ReadDir fs path =
     (case lookup fs (path_elems path) of
        Inl e \<Rightarrow> Inl (OsError e)
      | Inr (DirNode es) \<Rightarrow>
          Inr (map (\<lambda>(name, c). \<lparr>entry_Name = name, entry_Info = node_info name c\<rparr>) es)
      | Inr (FileNode b) \<Rightarrow> Inl (OsError ENOTDIR)
      | Inr (Unstatable e) \<Rightarrow> Inl (OsError e))"

text \<open>\<open>os.Open\<close> followed by \<open>io.Copy\<close>: the bytes of a file; a directory opens but cannot be read.\<close>

definition os_Open :: "node \<Rightarrow> string \<Rightarrow> error + node" where
  "os_Open fs path =
     (case lookup fs (path_elems path) of
        Inl e \<Rightarrow> Inl (OsError e)
      | Inr (Unstatable e) \<Rightarrow> Inl (OsError e)
      | Inr n \<Rightarrow> Inr n)"

fun io_Copy :: "node \<Rightarrow> error + string" where
  "io_Copy (FileNode b) = Inr b"
| "io_Copy (DirNode es) = Inl (OsError EISDIR)"
| "io_Copy (Unstatable e) = Inl (OsError e)"

text \<open>
  \<open>os.RemoveAll\<close>. Removing below the root follows the path; the entry named by the
  last element is removed with everything below it. A missing element gives the error
  number \<open>ENOENT\<close>, which \<open>RemoveAll\<close> turns into success; the root directory itself
  loses its entries and cannot be removed.
\<close>

fun replace_child :: "string \<Rightarrow> node \<Rightarrow> (string \<times> node) list \<Rightarrow> (string \<times> node) list" where
  "replace_child x c [] = []"
| "replace_child x c ((name, d) # es) =
     (if name = x then (name, c) # es else (name, d) # replace_child x c es)"

fun remove_at :: "node \<Rightarrow> string list \<Rightarrow> os_errno option \<times> node" where
  "remove_at (DirNode es) [] = (Some EBUSY, DirNode [])"
| "remove_at n [] = (Some EBUSY, n)"
| "remove_at (DirNode es) [x] =
     (case map_of es x of
        None \<Rightarrow> (Some ENOENT, DirNode es)
      | Some c \<Rightarrow> (None, DirNode (filter (\<lambda>(name, d). name \<noteq> x) es)))"
| "remove_at (DirNode es) (x # y # ys) =
     (case map_of es x of
        None \<Rightarrow> (Some ENOENT, DirNode es)
      | Some c \<Rightarrow> (case remove_at c (y # ys) of (r, c') \<Rightarrow> (r, DirNode (replace_child x c' es))))"
| "remove_at (FileNode b) (x # xs) = (Some ENOTDIR, FileNode b)"
| "remove_at (Unstatable e) (x # xs) = (Some e, Unstatable e)"

definition os_RemoveAll :: "node \<Rightarrow> string \<Rightarrow> error option \<times> node" where
  "os_RemoveAll fs path =
     (case remove_at fs (path_elems path) of
        (None, fs') \<Rightarrow> (None, fs')
      | (Some e, fs') \<Rightarrow> if os_IsNotExist (OsError e) then (None, fs') else (Some (OsError e), fs'))"

section \<open>LocalStorageService\<close>

record LocalStorageService =
  basePath :: string
  dirPerm :: nat

definition NewLocalStorageService :: "string \<Rightarrow> nat \<Rightarrow> LocalStorageService" where
  "NewLocalStorageService b d = \<lparr>basePath = b, dirPerm = d\<rparr>"

definition LocalStorageService_GetAbsolutePath :: "LocalStorageService \<Rightarrow> string \<Rightarrow> string" where
  "LocalStorageService_GetAbsolutePath s relPath = Join [basePath s, relPath]"

text \<open>The loop of \<open>ReadDirectory\<close>: an entry whose \<open>Info\<close> fails is logged and skipped.\<close>

fun collect_infos :: "DirEntry list \<Rightarrow> FileInfo list" where
  "collect_infos [] = []"
| "collect_infos (e # es) =
     (case entry_Info e of
        Inl infoErr \<Rightarrow> collect_infos es
      | Inr info \<Rightarrow> info # collect_infos es)"

definition LocalStorageService_ReadDirectory ::
  "LocalStorageService \<Rightarrow> string \<Rightarrow> node \<Rightarrow> (error + FileInfo list) \<times> node" where
  "LocalStorageService_ReadDirectory s relPath fs =
     (let fullPath = LocalStorageService_GetAbsolutePath s relPath in
      case os_ReadDir fs fullPath of
        Inl err \<Rightarrow> (Inl err, fs)
      | Inr entries \<Rightarrow> (Inr (collect_infos entries), fs))"

definition LocalStorageService_Remove ::
  "LocalStorageService \<Rightarrow> string \<Rightarrow> node \<Rightarrow> error option \<times> node" where
  "LocalStorageService_Remove s relPath fs =
     os_RemoveAll fs (LocalStorageService_GetAbsolutePath s relPath)"

text \<open>
  A storage is local at \<open>s\<close> when the three operations that the properties below
  depend on are those of \<open>LocalStorageService\<close>.
\<close>

definition local_storage :: "node FileStorage \<Rightarrow> LocalStorageService \<Rightarrow> bool" where
  "local_storage st s =
     (GetAbsolutePath st = LocalStorageService_GetAbsolutePath s \<and>
      ReadDirectory st = LocalStorageService_ReadDirectory s \<and>
      Remove st = LocalStorageService_Remove s)"

section \<open>Serving a file and a folder\<close>

text \<open>
  The response: its headers, the body written by \<open>http.ServeFile\<close>, and the entries
  (name and bytes) that the zip writer has written to it, in order.
\<close>

record ResponseWriter =
  Header :: "(string \<times> string) list"
  Body :: string
  Archive :: "(string \<times> string) list"

definition Header_Set :: "ResponseWriter \<Rightarrow> string \<Rightarrow> string \<Rightarrow> ResponseWriter" where
  "Header_Set w k v = w\<lparr>Header := (k, v) # filter (\<lambda>(k', v'). k' \<noteq> k) (Header w)\<rparr>"

text \<open>\<open>filepath.Ext\<close>: the suffix of the last element that starts at its last dot.\<close>

definition Ext :: "string \<Rightarrow> string" where
  "Ext path =
     (let e = last (split_sep path) in
      if CHR ''.'' \<in> set e then CHR ''.'' # rev (takeWhile (\<lambda>c. c \<noteq> CHR ''.'') (rev e)) else [])"

definition content_disposition :: "string \<Rightarrow> string" where
  "content_disposition name = ''attachment; filename='' @ [CHR 0x22] @ name @ [CHR 0x22]"

text \<open>
  \<open>ServeFile\<close>. The table of \<open>mime.TypeByExtension\<close> and \<open>http.ServeFile\<close> (with its
  request) are parameters.
\<close>

definition ServeFile ::
  "(string \<Rightarrow> string) \<Rightarrow> (node \<Rightarrow> string \<Rightarrow> ResponseWriter \<Rightarrow> ResponseWriter) \<Rightarrow>
   'w FileManagementUseCase \<Rightarrow> node \<Rightarrow> ResponseWriter \<Rightarrow> string \<Rightarrow> error option \<times> ResponseWriter" where
  "ServeFile mime_TypeByExtension http_ServeFile uc fs w path =
     (case sanitizePath uc path of
        Inl err \<Rightarrow> (Some err, w)
      | Inr sanitizedPath \<Rightarrow>
          (let fullPath = GetAbsolutePath (storage uc) sanitizedPath in
           case os_Stat fs fullPath of
             Inl statErr \<Rightarrow>
               if os_IsNotExist statErr
               then (Some (Wrapf (FileNotFoundAt sanitizedPath) ErrFileNotFound), w)
               else (Some (Wrapf (FailedToStatFile sanitizedPath) statErr), w)
           | Inr info \<Rightarrow>
               (let mimeType = mime_TypeByExtension (Ext fullPath);
                    mimeType = (if mimeType = PathEmpty then MIMEOctetStream else mimeType);
                    w1 = Header_Set w ''Content-Type'' mimeType;
                    w2 = Header_Set w1 ''Content-Disposition'' (content_disposition (Base fullPath))
                in (None, http_ServeFile fs fullPath w2))))"

definition shouldSkipFile :: "FileInfo \<Rightarrow> bool" where
  "shouldSkipFile info = HasPrefix (info_Name info) HiddenFilePrefix"

definition addFileToZip ::
  "node \<Rightarrow> (string \<times> string) list \<Rightarrow> string \<Rightarrow> string \<Rightarrow> error option \<times> (string \<times> string) list" where
  "addFileToZip fs zipWriter fullPath filePath =
     (case Rel fullPath filePath of
        Inl err \<Rightarrow> (Some (Wrapf FailedRelativePath err), zipWriter)
      | Inr rel \<Rightarrow>
          (case os_Open fs filePath of
             Inl openErr \<Rightarrow> (Some (Wrapf FailedOpenFile openErr), zipWriter @ [(rel, [])])
           | Inr srcFile \<Rightarrow>
               (case io_Copy srcFile of
                  Inl copyErr \<Rightarrow> (Some (Wrapf FailedCopy copyErr), zipWriter @ [(rel, [])])
                | Inr bytes \<Rightarrow> (None, zipWriter @ [(rel, bytes)]))))"

text \<open>
  \<open>filepath.Walk\<close> on the tree: \<open>walk\<close> calls the function on the entry, and for a
  directory on each of its entries in turn, with the joined path. A failed lookup of an
  entry's metadata is reported to the function. \<open>SkipDir\<close> from a directory skips that
  directory; any other error ends the walk.
\<close>

type_synonym 'z WalkFunc = "string \<Rightarrow> error + FileInfo \<Rightarrow> 'z \<Rightarrow> error option \<times> 'z"

fun walk :: "'z WalkFunc \<Rightarrow> string \<Rightarrow> string \<Rightarrow> node \<Rightarrow> 'z \<Rightarrow> error option \<times> 'z"
  and walk_names :: "'z WalkFunc \<Rightarrow> string \<Rightarrow> (string \<times> node) list \<Rightarrow> 'z \<Rightarrow> error option \<times> 'z" where
  "walk walkFn path name (FileNode b) z = walkFn path (node_info name (FileNode b)) z"
| "walk walkFn path name (Unstatable e) z = walkFn path (node_info name (Unstatable e)) z"
| "walk walkFn path name (DirNode es) z =
     (case walkFn path (node_info name (DirNode es)) z of
        (Some err1, z1) \<Rightarrow> (Some err1, z1)
      | (None, z1) \<Rightarrow> walk_names walkFn path es z1)"
| "walk_names walkFn path [] z = (None, z)"
| "walk_names walkFn path ((name, c) # es) z =
     (let filename = Join [path, name] in
      case node_info name c of
        Inl err \<Rightarrow>
          (case walkFn filename (Inl err) z of
             (Some err', z') \<Rightarrow>
               if err' \<noteq> SkipDir then (Some err', z') else walk_names walkFn path es z'
           | (None, z') \<Rightarrow> walk_names walkFn path es z')
      | Inr fileInfo \<Rightarrow>
          (case walk walkFn filename name c z of
             (Some err', z') \<Rightarrow>
               if \<not> info_IsDir fileInfo \<or> err' \<noteq> SkipDir then (Some err', z')
               else walk_names walkFn path es z'
           | (None, z') \<Rightarrow> walk_names walkFn path es z'))"

definition Walk :: "node \<Rightarrow> string \<Rightarrow> 'z WalkFunc \<Rightarrow> 'z \<Rightarrow> error option \<times> 'z" where
  "Walk fs root walkFn z =
     (case (case lookup fs (path_elems root) of
              Inl e \<Rightarrow> walkFn root (Inl (OsError e)) z
            | Inr (Unstatable e) \<Rightarrow> walkFn root (Inl (OsError e)) z
            | Inr n \<Rightarrow> walk walkFn root (Base root) n z) of
        (Some err, z') \<Rightarrow> if err = SkipDir then (None, z') else (Some err, z')
      | (None, z') \<Rightarrow> (None, z'))"

text \<open>The function that \<open>createZipArchive\<close> passes to \<open>filepath.Walk\<close>.\<close>

definition createZipArchive_walkFn :: "node \<Rightarrow> string \<Rightarrow> ((string \<times> string) list) WalkFunc" where
  "createZipArchive_walkFn fs fullPath file r zipWriter =
     (case r of
        Inl walkErr \<Rightarrow> (Some walkErr, zipWriter)
      | Inr info \<Rightarrow>
          if shouldSkipFile info
          then (if info_IsDir info then (Some SkipDir, zipWriter) else (None, zipWriter))
          else if info_IsDir info then (None, zipWriter)
          else addFileToZip fs zipWriter fullPath file)"

definition createZipArchive ::
  "node \<Rightarrow> (string \<times> string) list \<Rightarrow> string \<Rightarrow> error option \<times> (string \<times> string) list" where
  "createZipArchive fs zipWriter fullPath =
     Walk fs fullPath (createZipArchive_walkFn fs fullPath) zipWriter"

definition ServeFolderAsZip ::
  "'w FileManagementUseCase \<Rightarrow> node \<Rightarrow> ResponseWriter \<Rightarrow> string \<Rightarrow> error option \<times> ResponseWriter" where
  "ServeFolderAsZip uc fs w path =
     (case sanitizePath uc path of
        Inl err \<Rightarrow> (Some err, w)
      | Inr sanitizedPath \<Rightarrow>
          (let fullPath = GetAbsolutePath (storage uc) sanitizedPath in
           case os_Stat fs fullPath of
             Inl statErr \<Rightarrow> (Some (Wrapf (CouldNotStatFolder sanitizedPath) ErrFileNotFound), w)
           | Inr info \<Rightarrow>
               if \<not> info_IsDir info
               then (Some (Wrapf (CouldNotStatFolder sanitizedPath) ErrFileNotFound), w)
               else
                 (let zipName = Base sanitizedPath @ ExtensionZip;
                      w1 = Header_Set w ''Content-Type'' MIMEZip;
                      w2 = Header_Set w1 ''Content-Disposition'' (content_disposition zipName)
                  in case createZipArchive fs (Archive w2) fullPath of
                       (Some archiveErr, z) \<Rightarrow>
                         (Some (Wrapf (FailedToCreateZip sanitizedPath) archiveErr), w2\<lparr>Archive := z\<rparr>)
                     | (None, z) \<Rightarrow> (None, w2\<lparr>Archive := z\<rparr>))))"

section \<open>What the archive of a folder should hold\<close>

text \<open>
  A name is an entry name of a directory when it is not empty, is neither \<open>.\<close> nor
  \<open>..\<close> and has no separator. A tree is well formed when every directory has such
  names, each once, and it is readable when every entry's metadata can be read.
\<close>

definition real_elem :: "string \<Rightarrow> bool" where
  "real_elem e = (e \<noteq> [] \<and> e \<noteq> ''.'' \<and> e \<noteq> ''..'' \<and> Separator \<notin> set e)"


fun readable_node :: "node \<Rightarrow> bool" and readable_entries :: "(string \<times> node) list \<Rightarrow> bool" where
  "readable_node (DirNode es) = readable_entries es"
| "readable_node (FileNode b) = True"
| "readable_node (Unstatable e) = False"
| "readable_entries [] = True"
| "readable_entries ((name, c) # es) = (readable_node c \<and> readable_entries es)"



section \<open>Examples\<close>

text \<open>
  The storage mock of the tests with no function set: every operation returns nil and
  paths are joined to the base path.
\<close>

definition mockFileStorage :: "string \<Rightarrow> 'w FileStorage" where
  "mockFileStorage b =
     \<lparr>ReadDirectory = (\<lambda>relPath w. (Inr [], w)),
      WriteFile = (\<lambda>relPath file w. (None, w)),
      Remove = (\<lambda>relPath w. (None, w)),
      Move = (\<lambda>oldRel newRel w. (None, w)),
      CreateDirectory = (\<lambda>relPath w. (None, w)),
      GetAbsolutePath = (\<lambda>relPath. Join [b, relPath])\<rparr>"

definition example_cfg :: "int \<Rightarrow> Config" where
  "example_cfg n = \<lparr>File = \<lparr>MaxNameLength = n, ForbiddenExtensions = [''.env''], ValidNameRegex = ''^['' @ [CHR 0x5C] @ ''w'' @ [CHR 0x5C] @ ''-. ]+$''\<rparr>\<rparr>"

definition example_service :: LocalStorageService where
  "example_service = NewLocalStorageService ''/storage'' 493"

definition example_storage :: "node FileStorage" where
  "example_storage =
     (mockFileStorage ''/storage'')
       \<lparr>ReadDirectory := LocalStorageService_ReadDirectory example_service,
        Remove := LocalStorageService_Remove example_service\<rparr>"

definition example_uc :: "int \<Rightarrow> node FileManagementUseCase" where
  "example_uc n = NewFileManagementUseCase (\<lambda>re. default_validName) example_storage (example_cfg n)"

definition example_docs :: "(string \<times> node) list" where
  "example_docs =
     [(''.git'', DirNode [(''config'', FileNode ''c'')]),
      (''.hidden'', FileNode ''h''),
      (''a.txt'', FileNode ''A''),
      (''sub'', DirNode [(''b.txt'', FileNode ''B'')])]"

definition example_fs :: node where
  "example_fs =
     DirNode [(''storage'', DirNode
       [(''.cache'', DirNode [(''x.txt'', FileNode ''X'')]),
        (''docs'', DirNode example_docs),
        (''links'', DirNode [(''broken'', Unstatable ENOENT), (''ok.txt'', FileNode ''OK'')]),
        (''locked'', Unstatable EACCES)])]"

definition example_w :: ResponseWriter where
  "example_w = \<lparr>Header = [], Body = [], Archive = []\<rparr>"

section \<open>The base directory of a local storage\<close>

text \<open>
  The elements of the cleaned base path, and the elements of a relative path resolved
  against it, for a base path that is absolute.
\<close>

definition base_elems :: "LocalStorageService \<Rightarrow> string list" where
  "base_elems s = clean_elems True (split_sep (basePath s))"

definition resolved_elems :: "LocalStorageService \<Rightarrow> string \<Rightarrow> string list" where
  "resolved_elems s rel = fst (foldl (clean_elem True) (base_elems s, 0) (split_sep rel))"

section \<open>Properties of the path functions\<close>

lemma split_sep_ne [simp]: "split_sep s \<noteq> []"
  by (induction s) (auto split: list.splits)

lemma split_sep_nosep: "e \<in> set (split_sep s) \<Longrightarrow> Separator \<notin> set e"
  by (induction s arbitrary: e) (auto split: list.splits if_splits)

lemma split_sep_append: "split_sep (a @ Separator # b) = split_sep a @ split_sep b"
  by (induction a) (auto split: list.splits)

lemma split_sep_single: "Separator \<notin> set e \<Longrightarrow> split_sep e = [e]"
  by (induction e) auto

lemma join_sep_Cons: "es \<noteq> [] \<Longrightarrow> join_sep (e # es) = e @ Separator # join_sep es"
  by (cases es) auto

lemma join_sep_snoc: "es \<noteq> [] \<Longrightarrow> join_sep (es @ [e]) = join_sep es @ Separator # e"
  by (induction es rule: join_sep.induct) auto

lemma join_sep_append:
  "es \<noteq> [] \<Longrightarrow> fs \<noteq> [] \<Longrightarrow> join_sep (es @ fs) = join_sep es @ Separator # join_sep fs"
  by (induction es rule: join_sep.induct) (auto simp: join_sep_Cons)

lemma split_join_sep:
  "es \<noteq> [] \<Longrightarrow> \<forall>e\<in>set es. Separator \<notin> set e \<Longrightarrow> split_sep (join_sep es) = es"
proof (induction es rule: join_sep.induct)
  case (3 e f es)
  then show ?case by (simp add: split_sep_append split_sep_single)
qed (auto simp: split_sep_single)

lemma real_elem_nosep: "real_elem e \<Longrightarrow> Separator \<notin> set e"
  by (simp add: real_elem_def)


lemma foldl_clean_real:
  "\<forall>e\<in>set es. real_elem e \<Longrightarrow> foldl (clean_elem r) (out, d) es = (out @ es, d)"
  by (induction es arbitrary: out) (auto simp: real_elem_def)

lemma clean_elem_rooted_inv:
  assumes "\<forall>e\<in>set out. real_elem e" "Separator \<notin> set e"
  shows "\<exists>out'. clean_elem True (out, 0) e = (out', 0) \<and> (\<forall>x\<in>set out'. real_elem x)"
  using assms by (auto simp: real_elem_def dest: in_set_butlastD)

lemma foldl_clean_rooted_inv:
  "\<forall>e\<in>set out. real_elem e \<Longrightarrow> \<forall>e\<in>set es. Separator \<notin> set e \<Longrightarrow>
   \<exists>out'. foldl (clean_elem True) (out, 0) es = (out', 0) \<and> (\<forall>x\<in>set out'. real_elem x)"
proof (induction es arbitrary: out)
  case Nil then show ?case by simp
next
  case (Cons e es)
  from clean_elem_rooted_inv[of out e] Cons.prems
  obtain o1 where o1: "clean_elem True (out, 0) e = (o1, 0)" "\<forall>x\<in>set o1. real_elem x" by auto
  from Cons.IH[OF o1(2)] Cons.prems(2) o1(1) show ?case by simp
qed

lemma foldl_clean_rooted_split:
  assumes "\<forall>e\<in>set out. real_elem e"
  shows "foldl (clean_elem True) (out, 0) (split_sep s) =
           (fst (foldl (clean_elem True) (out, 0) (split_sep s)), 0)"
    and "\<forall>x\<in>set (fst (foldl (clean_elem True) (out, 0) (split_sep s))). real_elem x"
  using foldl_clean_rooted_inv[OF assms, of "split_sep s"] split_sep_nosep by auto

lemma IsAbs_Cons [simp]: "IsAbs (c # s) = (c = Separator)"
  by (auto simp: IsAbs_def HasPrefix_def)

lemma IsAbs_Nil [simp]: "\<not> IsAbs []"
  by (auto simp: IsAbs_def HasPrefix_def)

lemma IsAbs_render [simp]: "IsAbs (render True es)"
  by (simp add: render_def)

lemma render_ne [simp]: "render True es \<noteq> []"
  by (simp add: render_def)

lemma clean_elems_real: "\<forall>x\<in>set (clean_elems True (split_sep s)). real_elem x"
  unfolding clean_elems_def using foldl_clean_rooted_split(2)[of "[]" s] by simp

lemma split_render_True:
  assumes "\<forall>e\<in>set es. real_elem e"
  shows "split_sep (render True es) = [] # (if es = [] then [[]] else es)"
  using assms by (auto simp: render_def split_join_sep real_elem_nosep)

lemma foldl_clean_render:
  assumes "\<forall>e\<in>set es. real_elem e"
  shows "foldl (clean_elem True) ([], 0) (split_sep (render True es)) = (es, 0)"
  using assms by (auto simp: split_render_True foldl_clean_real)

lemma Clean_render_True:
  assumes "\<forall>e\<in>set es. real_elem e"
  shows "Clean (render True es) = render True es"
  using assms by (simp add: Clean_def clean_elems_def foldl_clean_render)

lemma path_elems_render_True:
  assumes "\<forall>e\<in>set es. real_elem e"
  shows "path_elems (render True es) = es"
proof -
  have "filter (\<lambda>e. e \<noteq> []) es = es" using assms by (auto simp: real_elem_def filter_id_conv)
  then show ?thesis using assms by (auto simp: path_elems_def split_render_True)
qed

lemma Clean_abs: "IsAbs p \<Longrightarrow> Clean p = render True (clean_elems True (split_sep p))"
  by (auto simp: Clean_def)

lemma Clean_abs_cat:
  assumes "IsAbs a"
  shows "Clean (a @ Separator # c) =
         render True (fst (foldl (clean_elem True) (clean_elems True (split_sep a), 0) (split_sep c)))"
proof -
  have abs: "IsAbs (a @ Separator # c)" using assms by (cases a) auto
  have "foldl (clean_elem True) ([], 0) (split_sep a) = (clean_elems True (split_sep a), 0)"
    using foldl_clean_rooted_split(1)[of "[]" a] by (simp add: clean_elems_def)
  then show ?thesis using abs by (simp add: Clean_abs clean_elems_def split_sep_append)
qed

lemma Clean_render_cat:
  assumes "\<forall>e\<in>set bs. real_elem e"
  shows "Clean (render True bs @ Separator # c) =
         render True (fst (foldl (clean_elem True) (bs, 0) (split_sep c)))"
  using Clean_abs_cat[of "render True bs" c] assms
  by (simp add: clean_elems_def foldl_clean_render)


lemma skip_common_split:
  "skip_common bs ts = (bs', ts') \<Longrightarrow> \<exists>cs. bs = cs @ bs' \<and> ts = cs @ ts'"
proof (induction bs ts rule: skip_common.induct)
  case (1 b bs t ts)
  show ?case
  proof (cases "b = t")
    case True
    with 1 obtain cs where "bs = cs @ bs'" "ts = cs @ ts'" by auto
    with True have "b # bs = (b # cs) @ bs'" "t # ts = (b # cs) @ ts'" by auto
    then show ?thesis by blast
  next
    case False
    with 1 show ?thesis by auto
  qed
qed auto

lemma HasPrefix_dotdot_join:
  "0 < n \<Longrightarrow> HasPrefix (join_sep (replicate n ''..'' @ ts)) ''..''"
proof -
  assume "0 < n"
  then obtain m where n: "n = Suc m" by (cases n) auto
  show ?thesis
    by (cases "replicate m ''..'' @ ts") (auto simp: n HasPrefix_def)
qed

lemma render_True_inj:
  assumes "\<forall>e\<in>set es. real_elem e" "\<forall>e\<in>set fs. real_elem e" "render True es = render True fs"
  shows "es = fs"
  by (metis path_elems_render_True assms)

lemma Rel_render:
  assumes bs: "\<forall>e\<in>set bs. real_elem e" and fs: "\<forall>e\<in>set fs. real_elem e"
  shows "Rel (render True bs) (render True fs) =
           (if fs = bs then Inr ''.''
            else case skip_common bs fs of (bs', ts') \<Rightarrow>
              if bs' \<noteq> [] then Inr (join_sep (replicate (length bs') ''..'' @ ts'))
              else Inr (join_sep ts'))"
proof (cases "fs = bs")
  case True
  then show ?thesis by (simp add: Rel_def)
next
  case False
  then have ne: "render True fs \<noteq> render True bs"
    using render_True_inj[OF fs bs] by auto
  have nd: "render True bs \<noteq> ''.''" by (simp add: render_def)
  obtain bs' ts' where sk: "skip_common bs fs = (bs', ts')" by (cases "skip_common bs fs")
  then obtain cs where "bs = cs @ bs'" using skip_common_split by blast
  then have hd: "\<not> (bs' \<noteq> [] \<and> ts' \<noteq> [] \<and> hd bs' = ''..'')"
    using bs by (cases bs') (auto simp: real_elem_def)
  have "Rel (render True bs) (render True fs) =
          (if bs' \<noteq> [] \<and> ts' \<noteq> [] \<and> hd bs' = ''..''
           then Inl (RelError (render True fs) (render True bs))
           else if bs' \<noteq> [] then Inr (join_sep (replicate (length bs') ''..'' @ ts'))
           else Inr (join_sep ts'))"
    using ne nd sk
    by (simp add: Rel_def Clean_render_True[OF bs] Clean_render_True[OF fs]
          path_elems_render_True[OF bs] path_elems_render_True[OF fs])
  then show ?thesis using False hd sk by simp
qed

lemma Rel_render_inside:
  assumes bs: "\<forall>e\<in>set bs. real_elem e" and fs: "\<forall>e\<in>set fs. real_elem e"
    and "Rel (render True bs) (render True fs) = Inr rel" "\<not> HasPrefix rel ''..''"
  shows "prefix bs fs"
proof (cases "fs = bs")
  case True then show ?thesis by simp
next
  case False
  obtain bs' ts' where sk: "skip_common bs fs = (bs', ts')" by (cases "skip_common bs fs")
  then obtain cs where cs: "bs = cs @ bs'" "fs = cs @ ts'" using skip_common_split by blast
  have "bs' = []"
  proof (rule ccontr)
    assume "bs' \<noteq> []"
    then have "rel = join_sep (replicate (length bs') ''..'' @ ts')"
      using assms(3) False sk by (simp add: Rel_render[OF bs fs])
    then show False using assms(4) HasPrefix_dotdot_join[of "length bs'" ts'] \<open>bs' \<noteq> []\<close> by simp
  qed
  then show ?thesis using cs by simp
qed



section \<open>Properties of sanitizePath\<close>

lemma sanitizePath_Inr_iff:
  "sanitizePath uc path = Inr p \<longleftrightarrow>
     p = Clean path \<and> traversal_check uc path \<and> length_check uc path \<and> name_check uc path"
  by (auto simp: sanitizePath_def traversal_check_def length_check_def name_check_def Let_def
           simp del: Join.simps split: sum.splits)

lemma sanitizePath_traversal:
  "\<not> traversal_check uc path \<Longrightarrow> \<exists>c. sanitizePath uc path = Inl (Wrapf c ErrPathTraversal)"
  by (auto simp: sanitizePath_def traversal_check_def Let_def simp del: Join.simps split: sum.splits)

lemma sanitizePath_too_long:
  "traversal_check uc path \<Longrightarrow> \<not> length_check uc path \<Longrightarrow>
   sanitizePath uc path =
     Inl (Wrapf (PathTooLongCtx path (int (length (Clean path))) (MaxNameLength (File (cfg uc))))
            ErrPathTooLong)"
  by (auto simp: sanitizePath_def traversal_check_def length_check_def Let_def
           simp del: Join.simps split: sum.splits)


lemma base_elems_real: "\<forall>e\<in>set (base_elems s). real_elem e"
  by (simp add: base_elems_def clean_elems_real)

lemma resolved_elems_real: "\<forall>e\<in>set (resolved_elems s rel). real_elem e"
  unfolding resolved_elems_def by (rule foldl_clean_rooted_split(2)[OF base_elems_real])

lemma GetAbsolutePath_local:
  assumes "IsAbs (basePath s)"
  shows "LocalStorageService_GetAbsolutePath s rel = render True (resolved_elems s rel)"
proof -
  have "basePath s \<noteq> []" using assms by auto
  then show ?thesis
    using Clean_abs_cat[OF assms, of rel]
    by (simp add: LocalStorageService_GetAbsolutePath_def resolved_elems_def base_elems_def)
qed

lemma resolved_elems_empty [simp]: "resolved_elems s [] = base_elems s"
  by (simp add: resolved_elems_def)

lemma resolved_elems_dot [simp]: "resolved_elems s ''.'' = base_elems s"
  by (simp add: resolved_elems_def)

lemma base_dir_local:
  assumes "IsAbs (basePath s)"
  shows "Clean (LocalStorageService_GetAbsolutePath s PathEmpty) = render True (base_elems s)"
  by (simp add: GetAbsolutePath_local[OF assms] PathEmpty_def Clean_render_True base_elems_real)

lemma fullPath_local:
  assumes "IsAbs (basePath s)"
  shows "Join [Clean (LocalStorageService_GetAbsolutePath s PathEmpty), c] =
         LocalStorageService_GetAbsolutePath s c"
proof -
  have "Join [Clean (LocalStorageService_GetAbsolutePath s PathEmpty), c] =
        Join [render True (base_elems s), c]"
    by (simp only: base_dir_local[OF assms])
  also have "\<dots> = Clean (render True (base_elems s) @ Separator # c)"
    by simp
  also have "\<dots> = render True (resolved_elems s c)"
    by (simp add: Clean_render_cat[OF base_elems_real] resolved_elems_def)
  finally show ?thesis by (simp add: GetAbsolutePath_local[OF assms])
qed

lemma inside_render:
  assumes "\<forall>e\<in>set bs. real_elem e" "\<forall>e\<in>set fs. real_elem e" "prefix bs fs"
  shows "inside (render True bs) (render True fs)"
  using assms by (auto simp: inside_def path_elems_render_True real_elem_def)

lemma IsAbs_Clean: "IsAbs path \<Longrightarrow> IsAbs (Clean path)"
  by (simp add: Clean_abs)

lemma inside_render_iff:
  assumes "\<forall>e\<in>set bs. real_elem e" "\<forall>e\<in>set fs. real_elem e"
  shows "inside (render True bs) (render True fs) \<longleftrightarrow> prefix bs fs"
  using assms by (auto simp: inside_def path_elems_render_True real_elem_def)

lemma Rel_render_outside:
  assumes bs: "\<forall>e\<in>set bs. real_elem e" and fs: "\<forall>e\<in>set fs. real_elem e"
    and "\<not> prefix bs fs"
  shows "\<exists>rel. Rel (render True bs) (render True fs) = Inr rel \<and> HasPrefix rel ''..''"
proof -
  obtain bs' ts' where sk: "skip_common bs fs = (bs', ts')" by (cases "skip_common bs fs")
  then obtain cs where cs: "bs = cs @ bs'" "fs = cs @ ts'" using skip_common_split by blast
  with assms(3) have ne: "bs' \<noteq> []" "fs \<noteq> bs" by auto
  then have "Rel (render True bs) (render True fs) =
               Inr (join_sep (replicate (length bs') ''..'' @ ts'))"
    using sk by (simp add: Rel_render[OF bs fs])
  then show ?thesis using HasPrefix_dotdot_join[of "length bs'" ts'] ne(1) by simp
qed

lemma sanitizePath_outside:
  assumes "GetAbsolutePath (storage uc) = LocalStorageService_GetAbsolutePath s"
    and "IsAbs (basePath s)"
    and "\<not> inside (Clean (GetAbsolutePath (storage uc) PathEmpty))
              (GetAbsolutePath (storage uc) (Clean path))"
  shows "\<not> traversal_check uc path"
proof -
  let ?B = "Clean (GetAbsolutePath (storage uc) PathEmpty)"
  have B: "?B = render True (base_elems s)"
    by (simp add: assms(1) base_dir_local[OF assms(2)])
  have G: "GetAbsolutePath (storage uc) (Clean path) = render True (resolved_elems s (Clean path))"
    by (simp only: assms(1) GetAbsolutePath_local[OF assms(2)])
  have "Join [?B, Clean path] = LocalStorageService_GetAbsolutePath s (Clean path)"
    unfolding assms(1) by (rule fullPath_local[OF assms(2)])
  then have F: "Join [?B, Clean path] = render True (resolved_elems s (Clean path))"
    by (simp only: GetAbsolutePath_local[OF assms(2)])
  from assms(3) have "\<not> prefix (base_elems s) (resolved_elems s (Clean path))"
    unfolding B G by (simp add: inside_render_iff[OF base_elems_real resolved_elems_real])
  from Rel_render_outside[OF base_elems_real resolved_elems_real this]
  obtain rel where "Rel (render True (base_elems s)) (render True (resolved_elems s (Clean path))) = Inr rel"
    "HasPrefix rel ''..''" by blast
  then have "Rel ?B (Join [?B, Clean path]) = Inr rel" "HasPrefix rel PathTraversalPrefix"
    by (simp_all only: B[symmetric] F[symmetric] PathTraversalPrefix_def)
  then show ?thesis
    by (simp add: traversal_check_def Let_def del: Join.simps)
qed

lemma example_local:
  "GetAbsolutePath (storage (example_uc n)) = LocalStorageService_GetAbsolutePath example_service"
  by (simp add: example_uc_def NewFileManagementUseCase_def example_storage_def mockFileStorage_def
        LocalStorageService_GetAbsolutePath_def example_service_def NewLocalStorageService_def
        fun_eq_iff del: Join.simps)

lemma example_abs: "IsAbs (basePath example_service)"
  by (simp add: example_service_def NewLocalStorageService_def)

lemma example_max: "MaxNameLength (File (cfg (example_uc n))) = n"
  by (simp add: example_uc_def NewFileManagementUseCase_def example_cfg_def)


text \<open>
  Claim C1. The storage resolves paths as \<open>LocalStorageService\<close> does, with an absolute
  base path. If \<open>sanitizePath\<close> succeeds, its result resolved against the base directory
  is inside the base directory. If the raw input is absolute, or the relative path from
  the base directory to the resolved input starts with the parent-directory marker,
  \<open>sanitizePath\<close> returns a path-traversal error; so it does for every input whose
  normalized form resolves to a path that is not inside the base directory.
\<close>

theorem sanitizePath_confinement:
  assumes "GetAbsolutePath (storage uc) = LocalStorageService_GetAbsolutePath s"
    and "IsAbs (basePath s)"
  shows "(\<forall>p. sanitizePath uc path = Inr p \<longrightarrow>
            inside (Clean (GetAbsolutePath (storage uc) PathEmpty)) (GetAbsolutePath (storage uc) p))
       \<and> (IsAbs path \<or>
            (\<exists>rel. Rel (Clean (GetAbsolutePath (storage uc) PathEmpty))
                      (Join [Clean (GetAbsolutePath (storage uc) PathEmpty), Clean path]) = Inr rel
                  \<and> HasPrefix rel PathTraversalPrefix)
          \<longrightarrow> (\<exists>c. sanitizePath uc path = Inl (Wrapf c ErrPathTraversal)))
       \<and> (\<not> inside (Clean (GetAbsolutePath (storage uc) PathEmpty))
                  (GetAbsolutePath (storage uc) (Clean path))
          \<longrightarrow> (\<exists>c. sanitizePath uc path = Inl (Wrapf c ErrPathTraversal)))"
proof (intro conjI allI impI)
  fix p assume ok: "sanitizePath uc path = Inr p"
  let ?B = "Clean (GetAbsolutePath (storage uc) PathEmpty)"
  from ok have p: "p = Clean path" and tc: "traversal_check uc path"
    by (simp_all add: sanitizePath_Inr_iff)
  have B: "?B = render True (base_elems s)"
    by (simp add: assms(1) base_dir_local[OF assms(2)])
  have "Join [?B, p] = LocalStorageService_GetAbsolutePath s p"
    unfolding assms(1) by (rule fullPath_local[OF assms(2)])
  then have F: "Join [?B, p] = render True (resolved_elems s p)"
    by (simp only: GetAbsolutePath_local[OF assms(2)])
  from tc obtain rel where rel: "Rel ?B (Join [?B, p]) = Inr rel" "\<not> HasPrefix rel ''..''"
    by (auto simp: traversal_check_def Let_def p PathTraversalPrefix_def
             simp del: Join.simps split: sum.splits)
  from F have F': "Join [render True (base_elems s), p] = render True (resolved_elems s p)"
    unfolding B .
  have "prefix (base_elems s) (resolved_elems s p)"
    using rel unfolding B F'
    by (rule Rel_render_inside[OF base_elems_real resolved_elems_real])
  then have "inside (render True (base_elems s)) (render True (resolved_elems s p))"
    by (rule inside_render[OF base_elems_real resolved_elems_real])
  then have "inside ?B (render True (resolved_elems s p))"
    by (simp only: B)
  then show "inside ?B (GetAbsolutePath (storage uc) p)"
    by (simp only: assms(1) GetAbsolutePath_local[OF assms(2), of p])
next
  assume "IsAbs path \<or>
            (\<exists>rel. Rel (Clean (GetAbsolutePath (storage uc) PathEmpty))
                      (Join [Clean (GetAbsolutePath (storage uc) PathEmpty), Clean path]) = Inr rel
                  \<and> HasPrefix rel PathTraversalPrefix)"
  then have "\<not> traversal_check uc path"
    by (auto simp: traversal_check_def Let_def IsAbs_Clean simp del: Join.simps)
  then show "\<exists>c. sanitizePath uc path = Inl (Wrapf c ErrPathTraversal)"
    by (rule sanitizePath_traversal)
next
  assume "\<not> inside (Clean (GetAbsolutePath (storage uc) PathEmpty))
              (GetAbsolutePath (storage uc) (Clean path))"
  then have "\<not> traversal_check uc path"
    by (rule sanitizePath_outside[OF assms])
  then show "\<exists>c. sanitizePath uc path = Inl (Wrapf c ErrPathTraversal)"
    by (rule sanitizePath_traversal)
qed

theorem sanitizePath_confinement_witness:
  "GetAbsolutePath (storage (example_uc 255)) = LocalStorageService_GetAbsolutePath example_service
   \<and> IsAbs (basePath example_service)
   \<and> sanitizePath (example_uc 255) ''docs/../docs/a.txt'' = Inr ''docs/a.txt''
   \<and> Clean (GetAbsolutePath (storage (example_uc 255)) PathEmpty) = ''/storage''
   \<and> GetAbsolutePath (storage (example_uc 255)) ''docs/a.txt'' = ''/storage/docs/a.txt''
   \<and> inside ''/storage'' ''/storage/docs/a.txt''
   \<and> IsAbs ''/etc/passwd''
   \<and> sanitizePath (example_uc 255) ''/etc/passwd'' = Inl (Wrapf AbsolutePathsNotAllowed ErrPathTraversal)
   \<and> sanitizePath (example_uc 255) ''a/../../b'' = Inl (Wrapf PathTraversalDetected ErrPathTraversal)"
proof -
  have ok: "sanitizePath (example_uc 255) ''docs/../docs/a.txt'' = Inr ''docs/a.txt''"
    by code_simp
  have b: "Clean (GetAbsolutePath (storage (example_uc 255)) PathEmpty) = ''/storage''"
    by code_simp
  have f: "GetAbsolutePath (storage (example_uc 255)) ''docs/a.txt'' = ''/storage/docs/a.txt''"
    by code_simp
  have a: "IsAbs ''/etc/passwd''" by simp
  have e1: "sanitizePath (example_uc 255) ''/etc/passwd'' =
              Inl (Wrapf AbsolutePathsNotAllowed ErrPathTraversal)"
    by code_simp
  have e2: "sanitizePath (example_uc 255) ''a/../../b'' =
              Inl (Wrapf PathTraversalDetected ErrPathTraversal)"
    by code_simp
  from sanitizePath_confinement[OF example_local example_abs, of 255 "''docs/../docs/a.txt''"] ok
  have "inside (Clean (GetAbsolutePath (storage (example_uc 255)) PathEmpty))
          (GetAbsolutePath (storage (example_uc 255)) ''docs/a.txt'')"
    by blast
  then have "inside ''/storage'' ''/storage/docs/a.txt''" by (simp only: b f)
  with ok b f a e1 e2 example_local example_abs show ?thesis by blast
qed

lemma Clean_Nil: "Clean [] = ''.''"
  by (simp add: Clean_def)

lemma Base_dot [simp]: "Base ''.'' = ''.''"
  by (simp add: Base_def strip_trailing_sep.simps)

text \<open>
  Claim C3. With a storage that resolves paths as \<open>LocalStorageService\<close> does, an
  absolute base path and a positive maximum length (the configuration is validated so),
  \<open>sanitizePath\<close> of the empty string succeeds, and its result resolved against the base
  directory is the base directory.
\<close>

theorem sanitizePath_empty_root:
  assumes "GetAbsolutePath (storage uc) = LocalStorageService_GetAbsolutePath s"
    and "IsAbs (basePath s)"
    and "0 < MaxNameLength (File (cfg uc))"
  shows "sanitizePath uc [] = Inr ''.'' \<and>
         GetAbsolutePath (storage uc) ''.'' = Clean (GetAbsolutePath (storage uc) PathEmpty)"
proof
  have B: "Clean (GetAbsolutePath (storage uc) PathEmpty) = render True (base_elems s)"
    by (simp add: assms(1) base_dir_local[OF assms(2)])
  have F: "GetAbsolutePath (storage uc) ''.'' = render True (base_elems s)"
    by (simp add: assms(1) GetAbsolutePath_local[OF assms(2)])
  show "GetAbsolutePath (storage uc) ''.'' = Clean (GetAbsolutePath (storage uc) PathEmpty)"
    by (simp add: B F)
  have J: "Join [render True (base_elems s), ''.''] = render True (base_elems s)"
    using fullPath_local[OF assms(2), of "''.''"] B F assms(1) by (simp del: Join.simps)
  have R: "Rel (render True (base_elems s)) (render True (base_elems s)) = Inr ''.''"
    by (simp add: Rel_def)
  have "traversal_check uc []"
    using B J R
    by (simp add: traversal_check_def Let_def HasPrefix_def PathTraversalPrefix_def Clean_Nil
          del: Join.simps)
  moreover have "length_check uc []" using assms(3) by (simp add: length_check_def Clean_Nil)
  moreover have "name_check uc []" by (simp add: name_check_def Clean_Nil PathCurrent_def)
  ultimately show "sanitizePath uc [] = Inr ''.''"
    by (simp add: sanitizePath_Inr_iff Clean_Nil)
qed

theorem sanitizePath_empty_root_witness:
  "GetAbsolutePath (storage (example_uc 255)) = LocalStorageService_GetAbsolutePath example_service
   \<and> IsAbs (basePath example_service)
   \<and> 0 < MaxNameLength (File (cfg (example_uc 255)))
   \<and> sanitizePath (example_uc 255) [] = Inr ''.''
   \<and> GetAbsolutePath (storage (example_uc 255)) ''.'' = ''/storage''"
proof -
  have m: "0 < MaxNameLength (File (cfg (example_uc 255)))" by (simp add: example_max)
  have b: "Clean (GetAbsolutePath (storage (example_uc 255)) PathEmpty) = ''/storage''"
    by code_simp
  from sanitizePath_empty_root[OF example_local example_abs m] b
  have "sanitizePath (example_uc 255) [] = Inr ''.'' \<and>
        GetAbsolutePath (storage (example_uc 255)) ''.'' = ''/storage''"
    by simp
  with m example_local example_abs show ?thesis by blast
qed

text \<open>
  Claim C4, as stated, fails: an input whose normalized form is one character longer
  than the maximum and that is absolute is rejected as a path traversal, because the
  traversal check comes first.
\<close>

theorem sanitizePath_length_counterexample:
  "int (length (Clean ''/ab'')) = MaxNameLength (File (cfg (example_uc 2))) + 1
   \<and> sanitizePath (example_uc 2) ''/ab'' = Inl (Wrapf AbsolutePathsNotAllowed ErrPathTraversal)
   \<and> \<not> errors_Is (Wrapf AbsolutePathsNotAllowed ErrPathTraversal) ErrPathTooLong"
  by code_simp

text \<open>
  Claim C4, amended. An input that passes the traversal and name checks and whose
  normalized form has exactly the maximum length is accepted; an input that passes the
  traversal check and whose normalized form is one character longer is rejected as too long.
\<close>

theorem sanitizePath_length_boundary:
  "(traversal_check uc path \<and> name_check uc path \<and>
      int (length (Clean path)) = MaxNameLength (File (cfg uc))
      \<longrightarrow> sanitizePath uc path = Inr (Clean path))
   \<and> (traversal_check uc path \<and> int (length (Clean path)) = MaxNameLength (File (cfg uc)) + 1
      \<longrightarrow> sanitizePath uc path =
            Inl (Wrapf (PathTooLongCtx path (MaxNameLength (File (cfg uc)) + 1)
                          (MaxNameLength (File (cfg uc)))) ErrPathTooLong))"
proof (intro conjI impI)
  assume "traversal_check uc path \<and> name_check uc path \<and>
      int (length (Clean path)) = MaxNameLength (File (cfg uc))"
  then show "sanitizePath uc path = Inr (Clean path)"
    by (simp add: sanitizePath_Inr_iff length_check_def)
next
  assume a: "traversal_check uc path \<and> int (length (Clean path)) = MaxNameLength (File (cfg uc)) + 1"
  then have "\<not> length_check uc path" by (simp add: length_check_def)
  with a show "sanitizePath uc path =
            Inl (Wrapf (PathTooLongCtx path (MaxNameLength (File (cfg uc)) + 1)
                          (MaxNameLength (File (cfg uc)))) ErrPathTooLong)"
    using sanitizePath_too_long[of uc path] by simp
qed

theorem sanitizePath_length_boundary_witness:
  "traversal_check (example_uc 5) ''a.txt'' \<and> name_check (example_uc 5) ''a.txt''
   \<and> int (length (Clean ''a.txt'')) = MaxNameLength (File (cfg (example_uc 5)))
   \<and> sanitizePath (example_uc 5) ''a.txt'' = Inr ''a.txt''
   \<and> traversal_check (example_uc 5) ''ab.txt''
   \<and> int (length (Clean ''ab.txt'')) = MaxNameLength (File (cfg (example_uc 5))) + 1
   \<and> sanitizePath (example_uc 5) ''ab.txt'' = Inl (Wrapf (PathTooLongCtx ''ab.txt'' 6 5) ErrPathTooLong)"
proof -
  have t1: "traversal_check (example_uc 5) ''a.txt''" by code_simp
  have n1: "name_check (example_uc 5) ''a.txt''" by code_simp
  have l1: "int (length (Clean ''a.txt'')) = MaxNameLength (File (cfg (example_uc 5)))"
    by code_simp
  have c1: "Clean ''a.txt'' = ''a.txt''" by code_simp
  have t2: "traversal_check (example_uc 5) ''ab.txt''" by code_simp
  have l2: "int (length (Clean ''ab.txt'')) = MaxNameLength (File (cfg (example_uc 5))) + 1"
    by code_simp
  from sanitizePath_length_boundary[of "example_uc 5" "''a.txt''"] t1 n1 l1 c1
  have r1: "sanitizePath (example_uc 5) ''a.txt'' = Inr ''a.txt''" by simp
  from sanitizePath_length_boundary[of "example_uc 5" "''ab.txt''"] t2 l2
  have r2: "sanitizePath (example_uc 5) ''ab.txt'' =
              Inl (Wrapf (PathTooLongCtx ''ab.txt'' 6 5) ErrPathTooLong)"
    by (simp add: example_max)
  from t1 n1 l1 r1 t2 l2 r2 show ?thesis by blast
qed



section \<open>Properties of the use cases\<close>

lemma with_log_simps [simp]:
  "GetAbsolutePath (storage (with_log uc)) = GetAbsolutePath (storage uc)"
  "cfg (with_log uc) = cfg uc"
  "validName (with_log uc) = validName uc"
  by (simp_all add: with_log_def logged_def)

lemma sanitizePath_with_log [simp]: "sanitizePath (with_log uc) path = sanitizePath uc path"
  unfolding sanitizePath_def with_log_simps by (rule refl)

text \<open>
  Claim C2. When \<open>sanitizePath\<close> fails on a path argument, each of the seven operations
  returns exactly that error and leaves the state (and the response) as it was; for
  \<open>Rename\<close> this holds for a failure on the old path and for a failure on the new path
  after the old path was accepted. With a storage that logs its calls, the log is
  unchanged: no storage operation was called. (The resolver \<open>GetAbsolutePath\<close>, from
  which \<open>sanitizePath\<close> itself reads the base directory, has no state and no log.)
\<close>

theorem sanitize_error_aborts:
  assumes "sanitizePath uc path = Inl err"
  shows "List uc path w = (Inl err, w)
       \<and> UploadFile uc path file w = (Some err, w)
       \<and> Delete uc path w = (Some err, w)
       \<and> CreateFolder uc path w = (Some err, w)
       \<and> Rename uc path other w = (Some err, w)
       \<and> (\<forall>p'. sanitizePath uc other = Inr p' \<longrightarrow> Rename uc other path w = (Some err, w))
       \<and> ServeFile mime serve uc fs rw path = (Some err, rw)
       \<and> ServeFolderAsZip uc fs rw path = (Some err, rw)
       \<and> List (with_log uc) path (w, log) = (Inl err, (w, log))
       \<and> UploadFile (with_log uc) path file (w, log) = (Some err, (w, log))
       \<and> Delete (with_log uc) path (w, log) = (Some err, (w, log))
       \<and> CreateFolder (with_log uc) path (w, log) = (Some err, (w, log))
       \<and> Rename (with_log uc) path other (w, log) = (Some err, (w, log))
       \<and> (\<forall>p'. sanitizePath uc other = Inr p' \<longrightarrow>
             Rename (with_log uc) other path (w, log) = (Some err, (w, log)))"
  using assms
  by (simp add: List_def UploadFile_def Delete_def CreateFolder_def Rename_def ServeFile_def
        ServeFolderAsZip_def)

theorem sanitize_error_aborts_witness:
  "sanitizePath (example_uc 255) ''../x'' = Inl (Wrapf PathTraversalDetected ErrPathTraversal)
   \<and> sanitizePath (example_uc 255) ''docs/a.txt'' = Inr ''docs/a.txt''
   \<and> List (with_log (example_uc 255)) ''../x'' (example_fs, []) =
        (Inl (Wrapf PathTraversalDetected ErrPathTraversal), (example_fs, []))
   \<and> Delete (with_log (example_uc 255)) ''../x'' (example_fs, []) =
        (Some (Wrapf PathTraversalDetected ErrPathTraversal), (example_fs, []))
   \<and> Rename (with_log (example_uc 255)) ''docs/a.txt'' ''../x'' (example_fs, []) =
        (Some (Wrapf PathTraversalDetected ErrPathTraversal), (example_fs, []))
   \<and> ServeFolderAsZip (example_uc 255) example_fs example_w ''../x'' =
        (Some (Wrapf PathTraversalDetected ErrPathTraversal), example_w)"
proof -
  have h: "sanitizePath (example_uc 255) ''../x'' = Inl (Wrapf PathTraversalDetected ErrPathTraversal)"
    by code_simp
  have ok: "sanitizePath (example_uc 255) ''docs/a.txt'' = Inr ''docs/a.txt''"
    by code_simp
  from sanitize_error_aborts[OF h, where w = example_fs and log = "[]" and other = "''docs/a.txt''"
         and fs = example_fs and rw = example_w] h ok
  show ?thesis by blast
qed

text \<open>
  Claim C9. For a path that \<open>sanitizePath\<close> accepts, \<open>ServeFolderAsZip\<close> returns the
  file-not-found error whenever the stat of the resolved path fails, whatever the
  reason, and whenever the target is not a directory. The error is never the
  permission-denied error and never wraps the error of the stat.
\<close>

theorem ServeFolderAsZip_stat_failure:
  assumes "sanitizePath uc path = Inr p"
    and "(\<exists>statErr. os_Stat fs (GetAbsolutePath (storage uc) p) = Inl statErr)
         \<or> (\<exists>info. os_Stat fs (GetAbsolutePath (storage uc) p) = Inr info \<and> \<not> info_IsDir info)"
  shows "ServeFolderAsZip uc fs w path = (Some (Wrapf (CouldNotStatFolder p) ErrFileNotFound), w)
       \<and> errors_Is (Wrapf (CouldNotStatFolder p) ErrFileNotFound) ErrFileNotFound
       \<and> \<not> errors_Is (Wrapf (CouldNotStatFolder p) ErrFileNotFound) ErrPermissionDenied
       \<and> (\<forall>e. \<not> errors_Is (Wrapf (CouldNotStatFolder p) ErrFileNotFound) (OsError e))"
  using assms by (auto simp: ServeFolderAsZip_def Let_def)

theorem ServeFolderAsZip_stat_failure_witness:
  "sanitizePath (example_uc 255) ''locked'' = Inr ''locked''
   \<and> os_Stat example_fs (GetAbsolutePath (storage (example_uc 255)) ''locked'') = Inl (OsError EACCES)
   \<and> os_IsPermission (OsError EACCES)
   \<and> ServeFolderAsZip (example_uc 255) example_fs example_w ''locked'' =
        (Some (Wrapf (CouldNotStatFolder ''locked'') ErrFileNotFound), example_w)
   \<and> sanitizePath (example_uc 255) ''docs/a.txt'' = Inr ''docs/a.txt''
   \<and> os_Stat example_fs (GetAbsolutePath (storage (example_uc 255)) ''docs/a.txt'') =
        Inr \<lparr>info_Name = ''a.txt'', info_IsDir = False\<rparr>
   \<and> ServeFolderAsZip (example_uc 255) example_fs example_w ''docs/a.txt'' =
        (Some (Wrapf (CouldNotStatFolder ''docs/a.txt'') ErrFileNotFound), example_w)"
proof -
  have s1: "sanitizePath (example_uc 255) ''locked'' = Inr ''locked''" by code_simp
  have t1: "os_Stat example_fs (GetAbsolutePath (storage (example_uc 255)) ''locked'') =
              Inl (OsError EACCES)"
    by code_simp
  have s2: "sanitizePath (example_uc 255) ''docs/a.txt'' = Inr ''docs/a.txt''" by code_simp
  have t2: "os_Stat example_fs (GetAbsolutePath (storage (example_uc 255)) ''docs/a.txt'') =
              Inr \<lparr>info_Name = ''a.txt'', info_IsDir = False\<rparr>"
    by code_simp
  have r1: "ServeFolderAsZip (example_uc 255) example_fs example_w ''locked'' =
        (Some (Wrapf (CouldNotStatFolder ''locked'') ErrFileNotFound), example_w)"
    using ServeFolderAsZip_stat_failure[OF s1, of example_fs example_w] t1 by simp
  have r2: "ServeFolderAsZip (example_uc 255) example_fs example_w ''docs/a.txt'' =
        (Some (Wrapf (CouldNotStatFolder ''docs/a.txt'') ErrFileNotFound), example_w)"
    using ServeFolderAsZip_stat_failure[OF s2, of example_fs example_w] t2 by simp
  from s1 t1 r1 s2 t2 r2 show ?thesis by simp
qed




lemma replace_child_same: "map_of es x = Some c \<Longrightarrow> replace_child x c es = es"
  by (induction es) (auto split: if_splits)

lemma remove_at_missing:
  "lookup n p = Inl e \<Longrightarrow> remove_at n p = (Some e, n)"
proof (induction n p rule: remove_at.induct)
  case (4 es x y ys)
  show ?case
  proof (cases "map_of es x")
    case None
    with 4 show ?thesis by simp
  next
    case (Some c)
    with 4 have "remove_at c (y # ys) = (Some e, c)" by simp
    with Some show ?thesis by (simp add: replace_child_same)
  qed
qed (auto split: option.splits)

text \<open>
  Claim C6. With the removal of \<open>LocalStorageService\<close>, for a path that \<open>sanitizePath\<close>
  accepts and whose target does not exist (some element of the resolved path has no
  entry in its directory), \<open>Delete\<close> returns success and the files are unchanged.
\<close>

theorem Delete_absent:
  assumes "local_storage (storage uc) s"
    and "sanitizePath uc path = Inr p"
    and "lookup fs (path_elems (GetAbsolutePath (storage uc) p)) = Inl ENOENT"
  shows "Delete uc path fs = (None, fs)"
proof -
  have R: "Remove (storage uc) = LocalStorageService_Remove s"
    and G: "GetAbsolutePath (storage uc) = LocalStorageService_GetAbsolutePath s"
    using assms(1) by (simp_all add: local_storage_def)
  have "os_RemoveAll fs (LocalStorageService_GetAbsolutePath s p) = (None, fs)"
    using remove_at_missing[OF assms(3)] by (simp add: os_RemoveAll_def G)
  then show ?thesis using assms(2) by (simp add: Delete_def R LocalStorageService_Remove_def)
qed

lemma example_local_storage: "local_storage (storage (example_uc n)) example_service"
  by (simp add: local_storage_def example_uc_def NewFileManagementUseCase_def example_storage_def
        mockFileStorage_def LocalStorageService_GetAbsolutePath_def example_service_def
        NewLocalStorageService_def fun_eq_iff del: Join.simps)

theorem Delete_absent_witness:
  "local_storage (storage (example_uc 255)) example_service
   \<and> sanitizePath (example_uc 255) ''docs/missing.txt'' = Inr ''docs/missing.txt''
   \<and> lookup example_fs (path_elems (GetAbsolutePath (storage (example_uc 255)) ''docs/missing.txt'')) =
        Inl ENOENT
   \<and> Delete (example_uc 255) ''docs/missing.txt'' example_fs = (None, example_fs)"
proof -
  have s1: "sanitizePath (example_uc 255) ''docs/missing.txt'' = Inr ''docs/missing.txt''"
    by code_simp
  have l1: "lookup example_fs
              (path_elems (GetAbsolutePath (storage (example_uc 255)) ''docs/missing.txt'')) =
            Inl ENOENT"
    by code_simp
  from Delete_absent[OF example_local_storage s1 l1] example_local_storage s1 l1
  show ?thesis by simp
qed

lemma collect_infos_valid: "map entry_Info es = map Inr infos \<Longrightarrow> collect_infos es = infos"
  by (induction es arbitrary: infos) auto

lemma collect_infos_append: "collect_infos (xs @ ys) = collect_infos xs @ collect_infos ys"
  by (induction xs) (auto split: sum.splits)

text \<open>
  Claim C8. With the directory reading of \<open>LocalStorageService\<close>, for a path that
  \<open>sanitizePath\<close> accepts and a directory in which exactly one entry's metadata lookup
  fails, \<open>List\<close> succeeds and returns the other entries, in order, each as its name and
  directory flag; the failing entry is left out.
\<close>

theorem List_skips_failed_entry:
  assumes "local_storage (storage uc) s"
    and "sanitizePath uc path = Inr p"
    and "os_ReadDir fs (GetAbsolutePath (storage uc) p) = Inr (pre @ bad # post)"
    and "entry_Info bad = Inl infoErr"
    and "map entry_Info pre = map Inr infos1" and "map entry_Info post = map Inr infos2"
  shows "List uc path fs =
           (Inr (map (\<lambda>fi. \<lparr>Name = info_Name fi, IsDir = info_IsDir fi\<rparr>) (infos1 @ infos2)), fs)"
proof -
  have R: "ReadDirectory (storage uc) = LocalStorageService_ReadDirectory s"
    and G: "GetAbsolutePath (storage uc) = LocalStorageService_GetAbsolutePath s"
    using assms(1) by (simp_all add: local_storage_def)
  have "collect_infos (pre @ bad # post) = infos1 @ infos2"
    using assms(4) collect_infos_valid[OF assms(5)] collect_infos_valid[OF assms(6)]
    by (simp add: collect_infos_append)
  then have "LocalStorageService_ReadDirectory s p fs = (Inr (infos1 @ infos2), fs)"
    using assms(3) by (simp add: LocalStorageService_ReadDirectory_def G)
  then show ?thesis using assms(2) by (simp add: List_def R)
qed

theorem List_skips_failed_entry_witness:
  "local_storage (storage (example_uc 255)) example_service
   \<and> sanitizePath (example_uc 255) ''links'' = Inr ''links''
   \<and> os_ReadDir example_fs (GetAbsolutePath (storage (example_uc 255)) ''links'') =
        Inr ([] @ \<lparr>entry_Name = ''broken'', entry_Info = Inl (OsError ENOENT)\<rparr> #
             [\<lparr>entry_Name = ''ok.txt'',
               entry_Info = Inr \<lparr>info_Name = ''ok.txt'', info_IsDir = False\<rparr>\<rparr>])
   \<and> List (example_uc 255) ''links'' example_fs =
        (Inr [\<lparr>Name = ''ok.txt'', IsDir = False\<rparr>], example_fs)"
proof -
  have s1: "sanitizePath (example_uc 255) ''links'' = Inr ''links''" by code_simp
  have r1: "os_ReadDir example_fs (GetAbsolutePath (storage (example_uc 255)) ''links'') =
        Inr ([] @ \<lparr>entry_Name = ''broken'', entry_Info = Inl (OsError ENOENT)\<rparr> #
             [\<lparr>entry_Name = ''ok.txt'',
               entry_Info = Inr \<lparr>info_Name = ''ok.txt'', info_IsDir = False\<rparr>\<rparr>])"
    by code_simp
  have b: "entry_Info \<lparr>entry_Name = ''broken'', entry_Info = Inl (OsError ENOENT)\<rparr> =
             Inl (OsError ENOENT)"
    by simp
  have p1: "map entry_Info [] = map Inr ([] :: FileInfo list)" by simp
  have p2: "map entry_Info [\<lparr>entry_Name = ''ok.txt'',
               entry_Info = Inr \<lparr>info_Name = ''ok.txt'', info_IsDir = False\<rparr>\<rparr>] =
            map Inr [\<lparr>info_Name = ''ok.txt'', info_IsDir = False\<rparr>]"
    by simp
  from List_skips_failed_entry[OF example_local_storage s1 r1 b p1 p2]
  have "List (example_uc 255) ''links'' example_fs =
        (Inr [\<lparr>Name = ''ok.txt'', IsDir = False\<rparr>], example_fs)"
    by simp
  with example_local_storage s1 r1 show ?thesis by simp
qed

section \<open>The archive of a folder\<close>



lemma readable_entries_member:
  "readable_entries es \<Longrightarrow> (name, c) \<in> set es \<Longrightarrow> readable_node c"
  by (induction es) auto


lemma join_sep_snoc_Cons: "join_sep ((ns @ [name]) @ ms) = join_sep (ns @ name # ms)"
  by simp






lemma os_Stat_lookup_dir:
  "lookup fs (path_elems full) = Inr (DirNode es) \<Longrightarrow>
   os_Stat fs full = Inr \<lparr>info_Name = Base full, info_IsDir = True\<rparr>"
  by (simp add: os_Stat_def)



end
